theory Spec2Isabelle
  imports Complex_Main
begin

section \<open>JavaScript numbers\<close>

text \<open>
  The fields \<open>maxRetries\<close>, \<open>healthCheckInterval\<close> and the elements of
  \<open>expectedStatusCodes\<close> are JavaScript numbers. The model keeps the values that
  behave differently under the operators the program applies to them (\<open>||\<close>,
  \<open>!==\<close>, \<open>>=\<close>, \<open>Array.prototype.includes\<close>): NaN, the two infinities and the
  finite values, the latter as rationals. Negative zero is identified with zero: all four
  operators treat the two alike.
\<close>

datatype number = NaN | NegInfinity | Finite rat | PosInfinity

text \<open>ToBoolean on a number: zero and NaN are falsy.\<close>

fun truthy :: "number \<Rightarrow> bool" where
  "truthy NaN = False"
| "truthy (Finite q) = (q \<noteq> 0)"
| "truthy NegInfinity = True"
| "truthy PosInfinity = True"

text \<open>\<open>a || b\<close> on numbers.\<close>

definition js_or :: "number \<Rightarrow> number \<Rightarrow> number" where
  "js_or a b = (if truthy a then a else b)"

text \<open>\<open>a !== b\<close> on numbers: NaN differs from everything, itself included.\<close>

fun strict_neq :: "number \<Rightarrow> number \<Rightarrow> bool" where
  "strict_neq NaN b = True"
| "strict_neq a NaN = True"
| "strict_neq a b = (a \<noteq> b)"

text \<open>\<open>a >= b\<close> on numbers: false as soon as one side is NaN.\<close>

fun ge_num :: "number \<Rightarrow> number \<Rightarrow> bool" where
  "ge_num NaN b = False"
| "ge_num a NaN = False"
| "ge_num PosInfinity b = True"
| "ge_num a NegInfinity = True"
| "ge_num NegInfinity b = False"
| "ge_num a PosInfinity = False"
| "ge_num (Finite a) (Finite b) = (b \<le> a)"

text \<open>
  \<open>xs.includes(x)\<close> compares with SameValueZero, under which NaN equals NaN and the two
  zeros are equal: on this type it is plain membership.
\<close>

definition array_includes :: "number list \<Rightarrow> number \<Rightarrow> bool" where
  "array_includes xs x = (x \<in> set xs)"

text \<open>ToBoolean on an optional string: \<open>undefined\<close> and the empty string are falsy.\<close>

fun truthy_string :: "string option \<Rightarrow> bool" where
  "truthy_string None = False"
| "truthy_string (Some u) = (u \<noteq> [])"

section \<open>Configuration and supervisor state\<close>

record Config =
  command :: "string list"
  healthCheckCommand :: "string list option"
  healthCheckUrl :: "string option"
  healthCheckInterval :: number
  maxRetries :: number
  expectedStatusCodes :: "number list option"

text \<open>
  What the supervisor does, in the order it does it: a probe is begun (\<open>Probe\<close>) and
  yields its verdict (\<open>Verdict\<close>), \<open>stop()\<close> is called, a child is sent the kill
  signal, a child is spawned or the spawn fails. A child process is named by the order of
  its spawn.
\<close>

datatype event = Probe | Verdict bool | StopCalled | Kill nat | Spawn nat | SpawnFailed

text \<open>
  The fields of \<open>ProcessManager\<close>: \<open>process\<close> is the handle of the last child spawned
  (\<open>null\<close> is \<open>None\<close>), \<open>aborted\<close> is \<open>abortController.signal.aborted\<close>.
  \<open>retryCount\<close> starts at 0 and is only ever incremented or reset to 0, so it is a natural
  number. \<open>trace\<close> and \<open>spawned\<close> are not fields of the class: they record the events so
  far and the number of children spawned so far.
\<close>

record ProcessManager =
  process :: "nat option"
  retryCount :: nat
  config :: Config
  aborted :: bool
  trace :: "event list"
  spawned :: nat

text \<open>The constructor.\<close>

definition new_ProcessManager :: "Config \<Rightarrow> ProcessManager" where
  "new_ProcessManager cfg =
     \<lparr>process = None, retryCount = 0, config = cfg, aborted = False, trace = [], spawned = 0\<rparr>"

section \<open>Exceptions\<close>

datatype error =
    NetworkError
  | LaunchError
  | StatusError
  | SpawnError
  | MonitoringStopped
  | MaxRetriesReached

text \<open>\<open>try { body } catch { handler }\<close> around a computation that returns or throws.\<close>

definition try_catch :: "error + 'a \<Rightarrow> (error \<Rightarrow> error + 'a) \<Rightarrow> error + 'a" where
  "try_catch body handler = (case body of Inl e \<Rightarrow> handler e | Inr v \<Rightarrow> Inr v)"

text \<open>Sequencing: an exception of the first computation skips the rest.\<close>

definition and_then :: "error + 'a \<Rightarrow> ('a \<Rightarrow> error + 'b) \<Rightarrow> error + 'b" where
  "and_then m k = (case m of Inl e \<Rightarrow> Inl e | Inr v \<Rightarrow> k v)"

section \<open>Health checks\<close>

text \<open>
  What the outside world answers to a probe at the moment it is made:
  \<^item> \<open>fetchResult\<close>: \<open>fetch(url)\<close> resolves with a response of the given status, or rejects;
  \<^item> \<open>commandResult\<close>: \<open>command.output()\<close> resolves with the exit code of the subprocess, or
    launching it throws;
  \<^item> \<open>statusSettled\<close>: the state of the promise \<open>process.status\<close>: settled (the child has
    exited, \<open>Inr True\<close>), pending (\<open>Inr False\<close>) or rejected.
\<close>

record probe =
  fetchResult :: "error + int"
  commandResult :: "error + int"
  statusSettled :: "error + bool"

text \<open>\<open>Response.ok\<close>: the status is in the range 200 to 299.\<close>

definition response_ok :: "int \<Rightarrow> bool" where
  "response_ok st = (200 \<le> st \<and> st \<le> 299)"

text \<open>
  \<open>new Deno.Command(cmd[0], {args: cmd.slice(1)}).output()\<close>: with an empty vector
  \<open>cmd[0]\<close> is \<open>undefined\<close> and the launch throws; otherwise the world decides.
  \<open>success\<close> is true exactly for exit code 0.
\<close>

definition command_output :: "string list \<Rightarrow> probe \<Rightarrow> error + int" where
  "command_output cmd w = (if cmd = [] then Inl LaunchError else commandResult w)"

text \<open>
  \<open>Promise.race([process.status, Promise.resolve(undefined)])\<close>: a settled status
  promise comes first in the race and wins it, a pending one loses to the resolved
  promise and the race yields \<open>undefined\<close> (\<open>None\<close>) without waiting for the child; a
  rejected status promise rejects the race.
\<close>

definition race_status :: "probe \<Rightarrow> error + unit option" where
  "race_status w =
     (case statusSettled w of
        Inl e \<Rightarrow> Inl e
      | Inr settled \<Rightarrow> Inr (if settled then Some () else None))"

definition checkHealth :: "ProcessManager \<Rightarrow> probe \<Rightarrow> error + bool" where
  "checkHealth s w =
     (if truthy_string (healthCheckUrl (config s)) then
        try_catch
          (and_then (fetchResult w) (\<lambda>status.
             (case expectedStatusCodes (config s) of
                Some codes \<Rightarrow> Inr (array_includes codes (Finite (of_int status)))
              | None \<Rightarrow> Inr (response_ok status))))
          (\<lambda>e. Inr False)
      else
        (case healthCheckCommand (config s) of
           Some cmd \<Rightarrow>
             try_catch
               (and_then (command_output cmd w) (\<lambda>code. Inr (code = 0)))
               (\<lambda>e. Inr False)
         | None \<Rightarrow>
             if process s = None then Inr False
             else
               try_catch
                 (and_then (race_status w) (\<lambda>status. Inr (status = None)))
                 (\<lambda>e. Inr False)))"

section \<open>Spawning and stopping\<close>

text \<open>
  \<open>process.kill()\<close>. It throws when the child has already terminated; both call sites
  wrap it in \<open>try { } catch { }\<close> with an empty handler, so the attempt is all that is
  observable.
\<close>

definition kill :: "nat \<Rightarrow> ProcessManager \<Rightarrow> ProcessManager" where
  "kill p s = s\<lparr>trace := trace s @ [Kill p]\<rparr>"

definition kill_if_running :: "ProcessManager \<Rightarrow> ProcessManager" where
  "kill_if_running s = (case process s of None \<Rightarrow> s | Some p \<Rightarrow> kill p s)"

text \<open>\<open>stop()\<close>: abort the controller, then kill the child if there is one.\<close>

definition stop :: "ProcessManager \<Rightarrow> ProcessManager" where
  "stop s = kill_if_running (s\<lparr>aborted := True, trace := trace s @ [StopCalled]\<rparr>)"

text \<open>
  \<open>startProcess()\<close>: spawn \<open>command[0]\<close> with the remaining arguments, store the handle
  and wait 100 ms. \<open>spawnFails\<close> says that the world refuses the spawn (an empty command
  vector always fails); \<open>stopInGrace\<close> that some other caller invokes \<open>stop()\<close> during
  the 100 ms. The result is the exception thrown, if any, and the state left behind.
\<close>

definition startProcess ::
  "bool \<Rightarrow> bool \<Rightarrow> ProcessManager \<Rightarrow> error option \<times> ProcessManager" where
  "startProcess spawnFails stopInGrace s =
     (if command (config s) = [] \<or> spawnFails then
        (Some SpawnError, s\<lparr>trace := trace s @ [SpawnFailed]\<rparr>)
      else
        (let s1 = s\<lparr>process := Some (spawned s),
                    trace := trace s @ [Spawn (spawned s)],
                    spawned := spawned s + 1\<rparr>
         in (None, if stopInGrace then stop s1 else s1)))"

section \<open>The monitor loop\<close>

text \<open>
  What the outside world does during one pass of the loop. The loop suspends at three
  places, and at each of them another caller may invoke \<open>stop()\<close>:
  \<^item> \<open>stopInWait\<close>: during the interval wait, before the timer fires;
  \<^item> \<open>stopInProbe\<close>: while \<open>checkHealth()\<close> is awaited;
  \<^item> \<open>stopInGrace\<close>: during the 100 ms after a spawn.
  \<open>world\<close> holds the answers to the probe and \<open>spawnFails\<close> the fate of a spawn.
\<close>

record cycle =
  stopInWait :: bool
  world :: probe
  stopInProbe :: bool
  spawnFails :: bool
  stopInGrace :: bool

text \<open>
  The state while \<open>await this.checkHealth()\<close> is pending: the probe has been begun and,
  if \<open>stopInProbe\<close>, another caller's \<open>stop()\<close> has run meanwhile. Then the state in
  which the loop resumes with the verdict.
\<close>

definition probing :: "cycle \<Rightarrow> ProcessManager \<Rightarrow> ProcessManager" where
  "probing c s =
     (let s1 = s\<lparr>trace := trace s @ [Probe]\<rparr>
      in if stopInProbe c then stop s1 else s1)"

definition probed :: "cycle \<Rightarrow> bool \<Rightarrow> ProcessManager \<Rightarrow> ProcessManager" where
  "probed c isHealthy s =
     (let s2 = probing c s in s2\<lparr>trace := trace s2 @ [Verdict isHealthy]\<rparr>)"

text \<open>
  The condition \<open>this.config.maxRetries !== -1 && this.retryCount >= this.config.maxRetries\<close>.
\<close>

definition retries_exhausted :: "ProcessManager \<Rightarrow> bool" where
  "retries_exhausted s =
     (strict_neq (maxRetries (config s)) (Finite (- 1)) \<and>
      ge_num (Finite (of_nat (retryCount s))) (maxRetries (config s)))"

text \<open>
  The restart: \<open>this.retryCount++\<close>, kill the child if there is one, \<open>startProcess()\<close>.
\<close>

definition restart :: "cycle \<Rightarrow> ProcessManager \<Rightarrow> error option \<times> ProcessManager" where
  "restart c s =
     startProcess (spawnFails c) (stopInGrace c)
       (kill_if_running (s\<lparr>retryCount := retryCount s + 1\<rparr>))"

text \<open>
  The body of the \<open>try\<close> block after the check of the abort signal: the exception it
  throws, if any, and the state it leaves. The interval wait races the timer against the
  abort listener, which rejects with \<open>Error("Monitoring stopped")\<close> when \<open>stop()\<close> is
  called during the wait.
\<close>

definition iteration :: "cycle \<Rightarrow> ProcessManager \<Rightarrow> error option \<times> ProcessManager" where
  "iteration c s =
     (if stopInWait c then (Some MonitoringStopped, stop s)
      else
        (case checkHealth s (world c) of
           Inl e \<Rightarrow> (Some e, probing c s)
         | Inr isHealthy \<Rightarrow>
             if \<not> isHealthy then
               if retries_exhausted (probed c isHealthy s)
               then (Some MaxRetriesReached, stop (probed c isHealthy s))
               else restart c (probed c isHealthy s)
             else (None, (probed c isHealthy s)\<lparr>retryCount := 0\<rparr>)))"

text \<open>
  How a run of \<open>monitor()\<close> ends: it returns, it throws, or it is still looping when the
  script of cycles is used up (the loop is \<open>while (true)\<close> and ends on its own only by
  one of the first two).
\<close>

datatype outcome = Returned | Threw error | Running

fun monitor :: "cycle list \<Rightarrow> ProcessManager \<Rightarrow> outcome \<times> ProcessManager" where
  "monitor [] s = (if aborted s then (Returned, s) else (Running, s))"
| "monitor (c # cs) s =
     (if aborted s then (Returned, s)
      else
        (case iteration c s of
           (Some e, s') \<Rightarrow>
             if e = MonitoringStopped then (Returned, s') else (Threw e, s')
         | (None, s') \<Rightarrow> monitor cs s'))"

section \<open>Reading a trace\<close>

text \<open>The events of a trace that come after the first call of \<open>stop()\<close>.\<close>

definition after_stop :: "event list \<Rightarrow> event list" where
  "after_stop evs = drop 1 (dropWhile (\<lambda>e. e \<noteq> StopCalled) evs)"

fun is_restart :: "event \<Rightarrow> bool" where
  "is_restart (Spawn p) = True"
| "is_restart SpawnFailed = True"
| "is_restart e = False"

text \<open>The number of spawns attempted in a trace.\<close>

definition restarts :: "event list \<Rightarrow> nat" where
  "restarts evs = length (filter is_restart evs)"

text \<open>The events a step or a run added to the trace of the state it started from.\<close>

definition new_events :: "ProcessManager \<Rightarrow> ProcessManager \<Rightarrow> event list" where
  "new_events s s' = drop (length (trace s)) (trace s')"

text \<open>
  What cancellation guarantees about a state: as long as the abort signal is not set, no
  \<open>stop()\<close> is on the trace; once it is set, no probe has been begun after the first
  \<open>stop()\<close> and at most one spawn has been attempted after it.
\<close>

definition stopped_well :: "ProcessManager \<Rightarrow> bool" where
  "stopped_well s =
     (if aborted s
      then Probe \<notin> set (after_stop (trace s)) \<and> restarts (after_stop (trace s)) \<le> 1
      else StopCalled \<notin> set (trace s))"

section \<open>Command line\<close>

text \<open>
  \<open>maxRetries: Number(args["max-retries"]) || -1\<close> in \<open>main\<close>. \<open>Number\<close> is the
  language's conversion of a string to a number, taken as a parameter.
\<close>

definition main_maxRetries :: "(string \<Rightarrow> number) \<Rightarrow> string \<Rightarrow> number" where
  "main_maxRetries Number arg = js_or (Number arg) (Finite (- 1))"

section \<open>Configurations of the test suite and of the manual\<close>

text \<open>The configuration of the tests of the HTTP health check.\<close>

definition test_http_config :: Config where
  "test_http_config =
     \<lparr>command = [''echo'', ''test''], healthCheckCommand = None,
      healthCheckUrl = Some ''http://localhost:8081/health'',
      healthCheckInterval = Finite 100, maxRetries = Finite 1, expectedStatusCodes = None\<rparr>"

text \<open>The configuration of the test of a succeeding health-check command.\<close>

definition test_command_config :: Config where
  "test_command_config =
     \<lparr>command = [''echo'', ''test''], healthCheckCommand = Some [''true''],
      healthCheckUrl = None,
      healthCheckInterval = Finite 100, maxRetries = Finite 1, expectedStatusCodes = None\<rparr>"

text \<open>The configuration of the test of process monitoring: no probe is configured.\<close>

definition test_process_config :: Config where
  "test_process_config =
     \<lparr>command = [''sleep'', ''2''], healthCheckCommand = None, healthCheckUrl = None,
      healthCheckInterval = Finite 100, maxRetries = Finite 1, expectedStatusCodes = None\<rparr>"

text \<open>
  The first example of the manual, \<open>restarter --health-check-url
  http://localhost:3000/health node server.js\<close>, with the defaults of the command line.
\<close>

definition manual_config :: Config where
  "manual_config =
     \<lparr>command = [''node'', ''server.js''], healthCheckCommand = None,
      healthCheckUrl = Some ''http://localhost:3000/health'',
      healthCheckInterval = Finite 5000, maxRetries = Finite (- 1),
      expectedStatusCodes = None\<rparr>"

text \<open>The answers of a world in which the service is down and the child has exited.\<close>

definition down :: probe where
  "down = \<lparr>fetchResult = Inl NetworkError, commandResult = Inr 1, statusSettled = Inr True\<rparr>"

text \<open>The answers of a world in which the service is up and the child is running.\<close>

definition up :: probe where
  "up = \<lparr>fetchResult = Inr 200, commandResult = Inr 0, statusSettled = Inr False\<rparr>"

text \<open>A cycle in which nobody calls \<open>stop()\<close> and a spawn succeeds.\<close>

definition quiet :: "probe \<Rightarrow> cycle" where
  "quiet w =
     \<lparr>stopInWait = False, world = w, stopInProbe = False, spawnFails = False,
      stopInGrace = False\<rparr>"

text \<open>The supervisor of a configuration once \<open>start()\<close> has spawned the first child.\<close>

definition started :: "Config \<Rightarrow> ProcessManager" where
  "started cfg = snd (startProcess False False (new_ProcessManager cfg))"

section \<open>Basic facts\<close>

lemma checkHealth_total: "\<exists>b. checkHealth s w = Inr b"
  by (auto simp: checkHealth_def try_catch_def and_then_def split: sum.splits option.splits)

lemma stop_simps [simp]:
  "config (stop s) = config s" "process (stop s) = process s"
  "retryCount (stop s) = retryCount s" "aborted (stop s) = True" "spawned (stop s) = spawned s"
  "trace (stop s) = trace s @ StopCalled # (case process s of None \<Rightarrow> [] | Some p \<Rightarrow> [Kill p])"
  by (simp_all add: stop_def kill_if_running_def kill_def split: option.splits)

lemma kill_if_running_simps [simp]:
  "config (kill_if_running s) = config s" "process (kill_if_running s) = process s"
  "retryCount (kill_if_running s) = retryCount s" "aborted (kill_if_running s) = aborted s"
  "spawned (kill_if_running s) = spawned s"
  "trace (kill_if_running s) = trace s @ (case process s of None \<Rightarrow> [] | Some p \<Rightarrow> [Kill p])"
  by (simp_all add: kill_if_running_def kill_def split: option.splits)

lemma probing_simps [simp]:
  "config (probing c s) = config s" "process (probing c s) = process s"
  "retryCount (probing c s) = retryCount s" "aborted (probing c s) = (aborted s \<or> stopInProbe c)"
  "spawned (probing c s) = spawned s"
  "trace (probing c s) = trace s @ Probe #
     (if stopInProbe c then StopCalled # (case process s of None \<Rightarrow> [] | Some p \<Rightarrow> [Kill p]) else [])"
  by (simp_all add: probing_def Let_def)

lemma probed_simps [simp]:
  "config (probed c b s) = config s" "process (probed c b s) = process s"
  "retryCount (probed c b s) = retryCount s" "aborted (probed c b s) = (aborted s \<or> stopInProbe c)"
  "spawned (probed c b s) = spawned s"
  "trace (probed c b s) = trace s @ Probe #
     (if stopInProbe c then StopCalled # (case process s of None \<Rightarrow> [] | Some p \<Rightarrow> [Kill p]) else [])
     @ [Verdict b]"
  by (simp_all add: probed_def Let_def)

lemma retries_exhausted_probed [simp]: "retries_exhausted (probed c b s) = retries_exhausted s"
  by (simp add: retries_exhausted_def)

lemma startProcess_simps [simp]:
  "config (snd (startProcess sf sg s)) = config s"
  "retryCount (snd (startProcess sf sg s)) = retryCount s"
  "fst (startProcess sf sg s) = (if command (config s) = [] \<or> sf then Some SpawnError else None)"
  "trace (snd (startProcess sf sg s)) = trace s @
     (if command (config s) = [] \<or> sf then [SpawnFailed]
      else Spawn (spawned s) # (if sg then [StopCalled, Kill (spawned s)] else []))"
  "aborted (snd (startProcess sf sg s)) = (aborted s \<or> (sg \<and> \<not> (command (config s) = [] \<or> sf)))"
  "process (snd (startProcess sf sg s)) = (if command (config s) = [] \<or> sf then process s else Some (spawned s))"
  "spawned (snd (startProcess sf sg s)) = (if command (config s) = [] \<or> sf then spawned s else spawned s + 1)"
  by (auto simp add: startProcess_def Let_def)

lemma restart_simps [simp]:
  "config (snd (restart c s)) = config s"
  "retryCount (snd (restart c s)) = retryCount s + 1"
  "fst (restart c s) = (if command (config s) = [] \<or> spawnFails c then Some SpawnError else None)"
  "trace (snd (restart c s)) = trace s @ (case process s of None \<Rightarrow> [] | Some p \<Rightarrow> [Kill p]) @
     (if command (config s) = [] \<or> spawnFails c then [SpawnFailed]
      else Spawn (spawned s) # (if stopInGrace c then [StopCalled, Kill (spawned s)] else []))"
  "aborted (snd (restart c s)) = (aborted s \<or> (stopInGrace c \<and> \<not> (command (config s) = [] \<or> spawnFails c)))"
  "process (snd (restart c s)) = (if command (config s) = [] \<or> spawnFails c then process s else Some (spawned s))"
  by (simp_all add: restart_def)

lemma iteration_cases:
  "iteration c s =
     (if stopInWait c then (Some MonitoringStopped, stop s)
      else if checkHealth s (world c) = Inr True then (None, (probed c True s)\<lparr>retryCount := 0\<rparr>)
      else if retries_exhausted s then (Some MaxRetriesReached, stop (probed c False s))
      else restart c (probed c False s))"
  using checkHealth_total [of s "world c"] by (auto simp: iteration_def)

lemma monitor_Cons:
  "monitor (c # cs) s =
     (if aborted s then (Returned, s)
      else case fst (iteration c s) of
             Some e \<Rightarrow> (if e = MonitoringStopped then Returned else Threw e, snd (iteration c s))
           | None \<Rightarrow> monitor cs (snd (iteration c s)))"
  by (simp split: prod.splits option.splits)

lemma iteration_config [simp]: "config (snd (iteration c s)) = config s"
  by (simp add: iteration_cases)

lemma new_events_append [simp]: "new_events s (s'\<lparr>trace := trace s @ evs\<rparr>) = evs"
  by (simp add: new_events_def)

lemma new_events_eq: "trace s' = trace s @ evs \<Longrightarrow> new_events s s' = evs"
  by (simp add: new_events_def)

lemma new_events_self [simp]: "new_events s s = []"
  by (simp add: new_events_def)

text \<open>A property of pairs of states that holds of every step holds of every run.\<close>

lemma monitor_rel:
  assumes refl: "\<And>s. Inv s \<Longrightarrow> R s s"
    and trans: "\<And>a b c. R a b \<Longrightarrow> R b c \<Longrightarrow> R a c"
    and step: "\<And>c s. \<not> aborted s \<Longrightarrow> Inv s \<Longrightarrow>
                 R s (snd (iteration c s)) \<and> Inv (snd (iteration c s))"
    and inv: "Inv s"
  shows "R s (snd (monitor cs s))"
  using inv
proof (induction cs arbitrary: s)
  case Nil
  then show ?case by (simp add: refl)
next
  case (Cons c cs)
  show ?case
  proof (cases "aborted s")
    case True
    with Cons.prems show ?thesis by (simp add: refl)
  next
    case False
    from step [OF False Cons.prems]
    have r: "R s (snd (iteration c s))" and i: "Inv (snd (iteration c s))" by simp_all
    show ?thesis
    proof (cases "fst (iteration c s)")
      case None
      have "R (snd (iteration c s)) (snd (monitor cs (snd (iteration c s))))"
        by (rule Cons.IH [OF i])
      with r have "R s (snd (monitor cs (snd (iteration c s))))" by (rule trans)
      with None False show ?thesis by (simp add: monitor_Cons del: monitor.simps)
    next
      case (Some e)
      with False r show ?thesis by (simp add: monitor_Cons del: monitor.simps)
    qed
  qed
qed

lemma monitor_config [simp]: "config (snd (monitor cs s)) = config s"
  by (rule monitor_rel [where R = "\<lambda>s s'. config s' = config s" and Inv = "\<lambda>s. True"]) simp_all

lemma iteration_trace: "\<exists>evs. trace (snd (iteration c s)) = trace s @ evs"
  by (simp add: iteration_cases)

lemma monitor_trace: "\<exists>evs. trace (snd (monitor cs s)) = trace s @ evs"
  by (rule monitor_rel [where R = "\<lambda>s s'. \<exists>evs. trace s' = trace s @ evs" and Inv = "\<lambda>s. True"])
     (auto simp: iteration_trace)

lemma restarts_simps [simp]:
  "restarts [] = 0"
  "restarts (e # evs) = (if is_restart e then 1 else 0) + restarts evs"
  "restarts (xs @ ys) = restarts xs + restarts ys"
  by (simp_all add: restarts_def)

lemma checkHealth_cong:
  "config s' = config s \<Longrightarrow> process s' = process s \<Longrightarrow> checkHealth s' w = checkHealth s w"
  by (auto simp: checkHealth_def split: option.splits)

lemma quiet_simps [simp]:
  "stopInWait (quiet w) = False" "world (quiet w) = w" "stopInProbe (quiet w) = False"
  "spawnFails (quiet w) = False" "stopInGrace (quiet w) = False"
  by (simp_all add: quiet_def)

lemma iteration_fst:
  "fst (iteration c s) =
     (if stopInWait c then Some MonitoringStopped
      else if checkHealth s (world c) = Inr True then None
      else if retries_exhausted s then Some MaxRetriesReached
      else if command (config s) = [] \<or> spawnFails c then Some SpawnError
      else None)"
  by (simp add: iteration_cases)

lemma not_exhausted_unlimited:
  "maxRetries (config s) = Finite (- 1) \<Longrightarrow> \<not> retries_exhausted s"
  by (simp add: retries_exhausted_def)

lemma monitor_unlimited_outcome:
  "maxRetries (config s) = Finite (- 1) \<Longrightarrow> fst (monitor cs s) \<noteq> Threw MaxRetriesReached"
proof (induction cs arbitrary: s)
  case Nil
  then show ?case by simp
next
  case (Cons c cs)
  have "\<not> retries_exhausted s" using Cons.prems by (rule not_exhausted_unlimited)
  moreover have "fst (monitor cs (snd (iteration c s))) \<noteq> Threw MaxRetriesReached"
    using Cons.prems by (intro Cons.IH) simp
  ultimately show ?case
    by (simp add: monitor_Cons iteration_fst del: monitor.simps)
qed

lemma iteration_unlimited_trace:
  "maxRetries (config s) = Finite (- 1) \<Longrightarrow>
   \<exists>evs. trace (snd (iteration c s)) = trace s @ evs \<and>
          restarts evs = count_list evs (Verdict False)"
  by (simp add: iteration_cases not_exhausted_unlimited split: option.splits)

lemma monitor_unlimited_trace:
  "maxRetries (config s) = Finite (- 1) \<Longrightarrow>
   \<exists>evs. trace (snd (monitor cs s)) = trace s @ evs \<and>
          restarts evs = count_list evs (Verdict False)"
proof (rule monitor_rel [where Inv = "\<lambda>s. maxRetries (config s) = Finite (- 1)"])
  fix a b c :: ProcessManager
  assume "\<exists>evs. trace b = trace a @ evs \<and> restarts evs = count_list evs (Verdict False)"
    and "\<exists>evs. trace c = trace b @ evs \<and> restarts evs = count_list evs (Verdict False)"
  then obtain e1 e2 where "trace b = trace a @ e1" "restarts e1 = count_list e1 (Verdict False)"
    "trace c = trace b @ e2" "restarts e2 = count_list e2 (Verdict False)" by blast
  then have "trace c = trace a @ (e1 @ e2) \<and>
     restarts (e1 @ e2) = count_list (e1 @ e2) (Verdict False)" by simp
  then show "\<exists>evs. trace c = trace a @ evs \<and> restarts evs = count_list evs (Verdict False)"
    by blast
qed (simp_all add: iteration_unlimited_trace)

lemma iteration_retryCount:
  "\<exists>evs. trace (snd (iteration c s)) = trace s @ evs \<and>
          (Verdict True \<notin> set evs \<longrightarrow> retryCount s \<le> retryCount (snd (iteration c s)))"
  by (simp add: iteration_cases split: option.splits)

lemma monitor_retryCount:
  "\<exists>evs. trace (snd (monitor cs s)) = trace s @ evs \<and>
          (Verdict True \<notin> set evs \<longrightarrow> retryCount s \<le> retryCount (snd (monitor cs s)))"
proof (rule monitor_rel [where Inv = "\<lambda>s. True"])
  fix a b c :: ProcessManager
  assume "\<exists>evs. trace b = trace a @ evs \<and> (Verdict True \<notin> set evs \<longrightarrow> retryCount a \<le> retryCount b)"
    and "\<exists>evs. trace c = trace b @ evs \<and> (Verdict True \<notin> set evs \<longrightarrow> retryCount b \<le> retryCount c)"
  then obtain e1 e2 where
    "trace b = trace a @ e1" "Verdict True \<notin> set e1 \<longrightarrow> retryCount a \<le> retryCount b"
    "trace c = trace b @ e2" "Verdict True \<notin> set e2 \<longrightarrow> retryCount b \<le> retryCount c"
    by blast
  then have "trace c = trace a @ (e1 @ e2) \<and>
     (Verdict True \<notin> set (e1 @ e2) \<longrightarrow> retryCount a \<le> retryCount c)" by auto
  then show "\<exists>evs. trace c = trace a @ evs \<and> (Verdict True \<notin> set evs \<longrightarrow> retryCount a \<le> retryCount c)"
    by blast
qed (simp_all add: iteration_retryCount)

lemma after_stop_Nil [simp]: "after_stop [] = []"
  by (simp add: after_stop_def)

lemma after_stop_Cons [simp]:
  "after_stop (e # evs) = (if e = StopCalled then evs else after_stop evs)"
  by (simp add: after_stop_def)

lemma after_stop_append:
  "StopCalled \<notin> set xs \<Longrightarrow> after_stop (xs @ ys) = after_stop ys"
  by (induction xs) auto

lemma after_stop_none: "StopCalled \<notin> set xs \<Longrightarrow> after_stop xs = []"
  by (induction xs) auto

lemma iteration_stopped_well:
  "\<not> aborted s \<Longrightarrow> stopped_well s \<Longrightarrow> stopped_well (snd (iteration c s))"
  by (simp add: stopped_well_def iteration_cases after_stop_append split: option.splits)

lemma monitor_stopped_well: "stopped_well s \<Longrightarrow> stopped_well (snd (monitor cs s))"
  by (rule monitor_rel [where R = "\<lambda>s s'. stopped_well s'" and Inv = stopped_well])
     (simp_all add: iteration_stopped_well)

section \<open>The health check\<close>

text \<open>
  C4. With a health-check URL configured (a non-empty string) and no expected status
  codes, \<open>checkHealth()\<close> is true exactly when the request is answered with a status
  from 200 to 299; any other status and any failure of the request give false.
\<close>

theorem checkHealth_http_default:
  "healthCheckUrl (config s) = Some url \<Longrightarrow> url \<noteq> [] \<Longrightarrow>
   expectedStatusCodes (config s) = None \<Longrightarrow>
   checkHealth s w =
     Inr (case fetchResult w of
            Inl e \<Rightarrow> False
          | Inr status \<Rightarrow> 200 \<le> status \<and> status \<le> 299)"
  by (simp add: checkHealth_def try_catch_def and_then_def response_ok_def split: sum.splits)

theorem checkHealth_http_default_witness:
  "checkHealth (new_ProcessManager test_http_config) up = Inr True \<and>
   checkHealth (new_ProcessManager test_http_config) (up\<lparr>fetchResult := Inr 500\<rparr>) = Inr False \<and>
   checkHealth (new_ProcessManager test_http_config) down = Inr False"
  using checkHealth_http_default
          [of "new_ProcessManager test_http_config" "''http://localhost:8081/health''" up]
        checkHealth_http_default
          [of "new_ProcessManager test_http_config" "''http://localhost:8081/health''"
              "up\<lparr>fetchResult := Inr 500\<rparr>"]
        checkHealth_http_default
          [of "new_ProcessManager test_http_config" "''http://localhost:8081/health''" down]
  by (simp add: new_ProcessManager_def test_http_config_def up_def down_def)

text \<open>
  C5. With a health-check URL and expected status codes configured, \<open>checkHealth()\<close> is
  true exactly when the status of the response is one of the expected codes; the range
  200 to 299 plays no part. A failed request gives false.
\<close>

theorem checkHealth_http_expected:
  "healthCheckUrl (config s) = Some url \<Longrightarrow> url \<noteq> [] \<Longrightarrow>
   expectedStatusCodes (config s) = Some codes \<Longrightarrow>
   checkHealth s w =
     Inr (case fetchResult w of
            Inl e \<Rightarrow> False
          | Inr status \<Rightarrow> Finite (of_int status) \<in> set codes)"
  by (simp add: checkHealth_def try_catch_def and_then_def array_includes_def split: sum.splits)

theorem checkHealth_http_expected_witness:
  "checkHealth
     (new_ProcessManager (test_http_config\<lparr>expectedStatusCodes := Some [Finite 201, Finite 204]\<rparr>))
     (up\<lparr>fetchResult := Inr 200\<rparr>) = Inr False \<and>
   checkHealth
     (new_ProcessManager
        (test_http_config\<lparr>expectedStatusCodes := Some [Finite 200, Finite 201, Finite 204]\<rparr>))
     (up\<lparr>fetchResult := Inr 201\<rparr>) = Inr True"
  using checkHealth_http_expected
          [of "new_ProcessManager
                 (test_http_config\<lparr>expectedStatusCodes := Some [Finite 201, Finite 204]\<rparr>)"
              "''http://localhost:8081/health''" "[Finite 201, Finite 204]"
              "up\<lparr>fetchResult := Inr 200\<rparr>"]
        checkHealth_http_expected
          [of "new_ProcessManager
                 (test_http_config\<lparr>expectedStatusCodes :=
                    Some [Finite 200, Finite 201, Finite 204]\<rparr>)"
              "''http://localhost:8081/health''" "[Finite 200, Finite 201, Finite 204]"
              "up\<lparr>fetchResult := Inr 201\<rparr>"]
  by (simp add: new_ProcessManager_def test_http_config_def up_def)

text \<open>
  C6. With a health-check command configured and no health-check URL, \<open>checkHealth()\<close>
  is true exactly when the command is launched and exits with code 0. A non-zero exit
  code and a failed launch (an empty command vector among them) give false, not an
  exception.
\<close>

theorem checkHealth_command:
  "\<not> truthy_string (healthCheckUrl (config s)) \<Longrightarrow>
   healthCheckCommand (config s) = Some cmd \<Longrightarrow>
   checkHealth s w = Inr (cmd \<noteq> [] \<and> commandResult w = Inr 0)"
  by (simp add: checkHealth_def try_catch_def and_then_def command_output_def split: sum.splits)

theorem checkHealth_command_witness:
  "checkHealth (new_ProcessManager test_command_config) up = Inr True \<and>
   checkHealth (new_ProcessManager test_command_config) down = Inr False \<and>
   checkHealth (new_ProcessManager test_command_config) (up\<lparr>commandResult := Inl LaunchError\<rparr>)
     = Inr False"
  using checkHealth_command [of "new_ProcessManager test_command_config" "[''true'']" up]
        checkHealth_command [of "new_ProcessManager test_command_config" "[''true'']" down]
        checkHealth_command [of "new_ProcessManager test_command_config" "[''true'']"
                                "up\<lparr>commandResult := Inl LaunchError\<rparr>"]
  by (simp add: new_ProcessManager_def test_command_config_def up_def down_def)

text \<open>
  C7. With neither a health-check URL nor a health-check command, \<open>checkHealth()\<close> is
  false as long as no child has been spawned; once a child has been spawned it is true
  while the status promise of the child is pending, and false once the promise has
  settled or been rejected. The verdict is given while the child is still running: the
  query does not wait for the exit.
\<close>

theorem checkHealth_liveness:
  "\<not> truthy_string (healthCheckUrl (config s)) \<Longrightarrow>
   healthCheckCommand (config s) = None \<Longrightarrow>
   (process s = None \<longrightarrow> checkHealth s w = Inr False) \<and>
   (process s \<noteq> None \<longrightarrow> checkHealth s w = Inr (statusSettled w = Inr False)) \<and>
   (fst (startProcess refused stopped s) = None \<longrightarrow>
      checkHealth (snd (startProcess refused stopped s)) w
        = Inr (statusSettled w = Inr False))"
  by (auto simp: checkHealth_def try_catch_def and_then_def race_status_def
           split: sum.splits)

theorem checkHealth_liveness_witness:
  "checkHealth (new_ProcessManager test_process_config) up = Inr False \<and>
   checkHealth (started test_process_config) up = Inr True \<and>
   checkHealth (started test_process_config) down = Inr False"
  using checkHealth_liveness [of "new_ProcessManager test_process_config" up False False]
        checkHealth_liveness [of "new_ProcessManager test_process_config" down False False]
        checkHealth_liveness [of "started test_process_config" up False False]
  by (simp add: started_def new_ProcessManager_def test_process_config_def up_def down_def)

text \<open>
  C8. \<open>checkHealth()\<close> never throws: whatever the configuration, the state of the
  supervisor and the answers of the world (failures of the request, of the launch and of
  the status query included), it returns a boolean.
\<close>

theorem checkHealth_never_throws: "\<exists>verdict. checkHealth s w = Inr verdict"
  by (auto simp: checkHealth_def try_catch_def and_then_def split: sum.splits option.splits)

theorem checkHealth_never_throws_witness:
  "\<exists>verdict.
     checkHealth (started test_process_config)
       \<lparr>fetchResult = Inl NetworkError, commandResult = Inl LaunchError,
        statusSettled = Inl StatusError\<rparr> = Inr verdict"
  using checkHealth_never_throws
          [of "started test_process_config"
              "\<lparr>fetchResult = Inl NetworkError, commandResult = Inl LaunchError,
               statusSettled = Inl StatusError\<rparr>"]
  by simp

section \<open>Retries\<close>

text \<open>
  C1. An unhealthy probe made when \<open>maxRetries\<close> is not -1 and \<open>retryCount\<close> has
  reached \<open>maxRetries\<close> ends the loop: \<open>monitor()\<close> throws "Max retries reached" after
  calling \<open>stop()\<close>, and no spawn is attempted; \<open>stop()\<close> is called exactly once
  unless another caller has called it during the probe. With \<open>maxRetries = 1\<close> and
  \<open>retryCount = 0\<close>, two unhealthy probes in a row, nobody else calling \<open>stop()\<close> and the
  spawn succeeding, end the loop in this way at the second probe, after exactly one
  restart and exactly one call of \<open>stop()\<close>.
\<close>

theorem monitor_max_retries_terminal:
  "(\<not> aborted s \<and> \<not> stopInWait c \<and> checkHealth s (world c) = Inr False \<and>
    strict_neq (maxRetries (config s)) (Finite (- 1)) \<and>
    ge_num (Finite (of_nat (retryCount s))) (maxRetries (config s)) \<longrightarrow>
      monitor (c # cs) s = (Threw MaxRetriesReached, stop (probed c False s)) \<and>
      restarts (new_events s (stop (probed c False s))) = 0 \<and>
      (\<not> stopInProbe c \<longrightarrow>
         count_list (new_events s (stop (probed c False s))) StopCalled = 1)) \<and>
   (maxRetries (config s) = Finite 1 \<and> retryCount s = 0 \<and> \<not> aborted s \<and>
    command (config s) \<noteq> [] \<and>
    c1 = quiet w1 \<and> checkHealth s w1 = Inr False \<and>
    c2 = quiet w2 \<and> checkHealth (s\<lparr>process := Some (spawned s)\<rparr>) w2 = Inr False \<longrightarrow>
      fst (monitor (c1 # c2 # cs) s) = Threw MaxRetriesReached \<and>
      count_list (new_events s (snd (monitor (c1 # c2 # cs) s))) StopCalled = 1 \<and>
      restarts (new_events s (snd (monitor (c1 # c2 # cs) s))) = 1)"
proof (intro conjI impI)
  assume a: "\<not> aborted s \<and> \<not> stopInWait c \<and> checkHealth s (world c) = Inr False \<and>
    strict_neq (maxRetries (config s)) (Finite (- 1)) \<and>
    ge_num (Finite (of_nat (retryCount s))) (maxRetries (config s))"
  then have ex: "retries_exhausted s" by (simp add: retries_exhausted_def)
  from a ex show "monitor (c # cs) s = (Threw MaxRetriesReached, stop (probed c False s))"
    by (simp add: iteration_cases)
  show "restarts (new_events s (stop (probed c False s))) = 0"
    by (simp add: new_events_def split: option.splits)
  assume "\<not> stopInProbe c"
  then show "count_list (new_events s (stop (probed c False s))) StopCalled = 1"
    by (simp add: new_events_def split: option.splits)
next
  assume a: "maxRetries (config s) = Finite 1 \<and> retryCount s = 0 \<and> \<not> aborted s \<and>
    command (config s) \<noteq> [] \<and>
    c1 = quiet w1 \<and> checkHealth s w1 = Inr False \<and>
    c2 = quiet w2 \<and> checkHealth (s\<lparr>process := Some (spawned s)\<rparr>) w2 = Inr False"
  then have c: "c1 = quiet w1" "c2 = quiet w2" by simp_all
  define s1 where "s1 = snd (iteration (quiet w1) s)"
  have ne: "\<not> retries_exhausted s" using a by (simp add: retries_exhausted_def)
  have it1: "iteration (quiet w1) s = restart (quiet w1) (probed (quiet w1) False s)"
    using a ne by (simp add: iteration_cases)
  have s1: "fst (iteration (quiet w1) s) = None" "\<not> aborted s1" "retryCount s1 = 1"
    "process s1 = Some (spawned s)" "config s1 = config s"
    "trace s1 = trace s @ Probe # Verdict False #
       (case process s of None \<Rightarrow> [] | Some p \<Rightarrow> [Kill p]) @ [Spawn (spawned s)]"
    using a by (simp_all add: s1_def it1)
  have "checkHealth s1 w2 = checkHealth (s\<lparr>process := Some (spawned s)\<rparr>) w2"
    by (rule checkHealth_cong) (simp_all add: s1)
  with a have ch: "checkHealth s1 w2 = Inr False" by simp
  have ex: "retries_exhausted s1" using a s1 by (simp add: retries_exhausted_def)
  have it2: "iteration (quiet w2) s1 = (Some MaxRetriesReached, stop (probed (quiet w2) False s1))"
    using ch ex by (simp add: iteration_cases)
  have m: "monitor (c1 # c2 # cs) s =
      (Threw MaxRetriesReached, stop (probed (quiet w2) False s1))"
    using a s1 it2 unfolding c by (simp add: monitor_Cons s1_def [symmetric] del: monitor.simps)
  have tr: "new_events s (stop (probed (quiet w2) False s1)) =
      Probe # Verdict False # (case process s of None \<Rightarrow> [] | Some p \<Rightarrow> [Kill p]) @
      [Spawn (spawned s), Probe, Verdict False, StopCalled, Kill (spawned s)]"
    using s1 by (simp add: new_events_def)
  show "fst (monitor (c1 # c2 # cs) s) = Threw MaxRetriesReached"
    unfolding m by simp
  show "count_list (new_events s (snd (monitor (c1 # c2 # cs) s))) StopCalled = 1"
    unfolding m snd_conv tr by (simp split: option.splits)
  show "restarts (new_events s (snd (monitor (c1 # c2 # cs) s))) = 1"
    unfolding m snd_conv tr by (simp split: option.splits)
qed

theorem monitor_max_retries_terminal_witness:
  "monitor [quiet down] ((started test_process_config)\<lparr>retryCount := 1\<rparr>) =
     (Threw MaxRetriesReached,
      stop (probed (quiet down) False ((started test_process_config)\<lparr>retryCount := 1\<rparr>))) \<and>
   fst (monitor [quiet down, quiet down] (started test_process_config)) = Threw MaxRetriesReached \<and>
   count_list
     (new_events (started test_process_config)
        (snd (monitor [quiet down, quiet down] (started test_process_config)))) StopCalled = 1 \<and>
   restarts
     (new_events (started test_process_config)
        (snd (monitor [quiet down, quiet down] (started test_process_config)))) = 1"
proof -
  have h: "checkHealth (started test_process_config) down = Inr False"
    "checkHealth ((started test_process_config)\<lparr>retryCount := 1\<rparr>) down = Inr False"
    "checkHealth ((started test_process_config)
        \<lparr>process := Some (spawned (started test_process_config))\<rparr>) down = Inr False"
    by (simp_all add: checkHealth_def started_def new_ProcessManager_def
          test_process_config_def down_def try_catch_def and_then_def race_status_def)
  have g: "maxRetries (config (started test_process_config)) = Finite 1"
    "retryCount (started test_process_config) = 0" "\<not> aborted (started test_process_config)"
    "command (config (started test_process_config)) \<noteq> []"
    by (simp_all add: started_def new_ProcessManager_def test_process_config_def)
  show ?thesis
    using monitor_max_retries_terminal [where s = "(started test_process_config)\<lparr>retryCount := 1\<rparr>"
                and c = "quiet down" and cs = "[]"]
          monitor_max_retries_terminal [where s = "started test_process_config" and ?c1.0 = "quiet down"
                and ?c2.0 = "quiet down" and ?w1.0 = down and ?w2.0 = down and cs = "[]"]
          h g
    by (simp del: monitor.simps)
qed

text \<open>
  C3. One pass of the loop leaves \<open>retryCount\<close> unchanged when the wait is interrupted,
  sets it to 0 when the probe is healthy, whatever it was before, leaves it unchanged
  when the probe is unhealthy and the retries are exhausted, and adds exactly one when
  the probe is unhealthy and they are not. Over a run with no healthy verdict
  \<open>retryCount\<close> does not decrease.
\<close>

theorem retryCount_reset_and_increment:
  "retryCount (snd (iteration c s)) =
     (if stopInWait c then retryCount s
      else if checkHealth s (world c) = Inr True then 0
      else if retries_exhausted s then retryCount s
      else retryCount s + 1) \<and>
   (Verdict True \<notin> set (new_events s (snd (monitor cs s))) \<longrightarrow>
      retryCount s \<le> retryCount (snd (monitor cs s)))"
proof
  show "retryCount (snd (iteration c s)) =
     (if stopInWait c then retryCount s
      else if checkHealth s (world c) = Inr True then 0
      else if retries_exhausted s then retryCount s
      else retryCount s + 1)"
    by (simp add: iteration_cases)
  from monitor_retryCount [of cs s]
  obtain evs where "trace (snd (monitor cs s)) = trace s @ evs"
    "Verdict True \<notin> set evs \<longrightarrow> retryCount s \<le> retryCount (snd (monitor cs s))" by blast
  then show "Verdict True \<notin> set (new_events s (snd (monitor cs s))) \<longrightarrow>
      retryCount s \<le> retryCount (snd (monitor cs s))"
    by (simp add: new_events_eq)
qed

theorem retryCount_reset_and_increment_witness:
  "retryCount (snd (iteration (quiet up) ((started test_http_config)\<lparr>retryCount := 7\<rparr>))) = 0 \<and>
   retryCount (snd (iteration (quiet down) ((started manual_config)\<lparr>retryCount := 7\<rparr>))) = 8 \<and>
   retryCount (started manual_config)
     \<le> retryCount (snd (monitor [quiet down, quiet down] (started manual_config)))"
proof -
  have h: "checkHealth ((started test_http_config)\<lparr>retryCount := 7\<rparr>) up = Inr True"
    "checkHealth ((started manual_config)\<lparr>retryCount := 7\<rparr>) down = Inr False"
    "\<not> retries_exhausted ((started manual_config)\<lparr>retryCount := 7\<rparr>)"
    by (simp_all add: checkHealth_def started_def new_ProcessManager_def manual_config_def
          test_http_config_def down_def up_def try_catch_def and_then_def response_ok_def
          retries_exhausted_def)
  have t: "Verdict True \<notin> set (new_events (started manual_config)
      (snd (monitor [quiet down, quiet down] (started manual_config))))"
    by (simp add: iteration_def checkHealth_def started_def new_ProcessManager_def
        manual_config_def down_def try_catch_def and_then_def quiet_def probed_def probing_def
        restart_def startProcess_def kill_if_running_def kill_def retries_exhausted_def
        new_events_def)
  show ?thesis
    using retryCount_reset_and_increment [where s = "(started test_http_config)\<lparr>retryCount := 7\<rparr>" and c = "quiet up"
                and cs = "[]"]
          retryCount_reset_and_increment [where s = "(started manual_config)\<lparr>retryCount := 7\<rparr>" and c = "quiet down"
                and cs = "[]"]
          retryCount_reset_and_increment [where s = "started manual_config" and c = "quiet down"
                and cs = "[quiet down, quiet down]"]
          h t
    by (simp del: monitor.simps)
qed

text \<open>
  C9. With \<open>maxRetries = -1\<close> no run of the loop ends with "Max retries reached",
  however long it is and whatever the probes answer; every unhealthy verdict of a run is
  matched by one attempted spawn; and the pass of an unhealthy probe sends the kill signal
  to the current child and then attempts the spawn.
\<close>

theorem monitor_unlimited_retries:
  "maxRetries (config s) = Finite (- 1) \<Longrightarrow>
   fst (monitor cs s) \<noteq> Threw MaxRetriesReached \<and>
   restarts (new_events s (snd (monitor cs s))) =
     count_list (new_events s (snd (monitor cs s))) (Verdict False) \<and>
   (\<not> stopInWait c \<and> checkHealth s (world c) = Inr False \<and> process s = Some p \<longrightarrow>
      new_events s (snd (iteration c s)) =
        Probe # (if stopInProbe c then [StopCalled, Kill p] else []) @
        [Verdict False, Kill p] @
        (if command (config s) = [] \<or> spawnFails c then [SpawnFailed]
         else Spawn (spawned s) #
              (if stopInGrace c then [StopCalled, Kill (spawned s)] else [])))"
proof (intro conjI impI)
  assume u: "maxRetries (config s) = Finite (- 1)"
  then show "fst (monitor cs s) \<noteq> Threw MaxRetriesReached" by (rule monitor_unlimited_outcome)
  from monitor_unlimited_trace [OF u, of cs]
  obtain evs where "trace (snd (monitor cs s)) = trace s @ evs"
    "restarts evs = count_list evs (Verdict False)" by blast
  then show "restarts (new_events s (snd (monitor cs s))) =
     count_list (new_events s (snd (monitor cs s))) (Verdict False)"
    by (simp add: new_events_eq)
  assume "\<not> stopInWait c \<and> checkHealth s (world c) = Inr False \<and> process s = Some p"
  with u show "new_events s (snd (iteration c s)) =
        Probe # (if stopInProbe c then [StopCalled, Kill p] else []) @
        [Verdict False, Kill p] @
        (if command (config s) = [] \<or> spawnFails c then [SpawnFailed]
         else Spawn (spawned s) #
              (if stopInGrace c then [StopCalled, Kill (spawned s)] else []))"
    by (simp add: iteration_cases not_exhausted_unlimited new_events_def)
qed

theorem monitor_unlimited_retries_witness:
  "fst (monitor [quiet down, quiet down, quiet down] (started manual_config))
     \<noteq> Threw MaxRetriesReached \<and>
   restarts (new_events (started manual_config)
      (snd (monitor [quiet down, quiet down, quiet down] (started manual_config)))) =
   count_list (new_events (started manual_config)
      (snd (monitor [quiet down, quiet down, quiet down] (started manual_config))))
      (Verdict False) \<and>
   new_events (started manual_config) (snd (iteration (quiet down) (started manual_config))) =
     [Probe, Verdict False, Kill 0, Spawn 1]"
proof -
  have h: "maxRetries (config (started manual_config)) = Finite (- 1)"
    "checkHealth (started manual_config) down = Inr False"
    "process (started manual_config) = Some 0"
    "command (config (started manual_config)) \<noteq> []"
    "spawned (started manual_config) = 1"
    by (simp_all add: checkHealth_def started_def new_ProcessManager_def
          manual_config_def down_def try_catch_def and_then_def)
  show ?thesis
    using monitor_unlimited_retries [where s = "started manual_config" and c = "quiet down" and p = 0
                and cs = "[quiet down, quiet down, quiet down]"] h
    by (simp del: monitor.simps)
qed

text \<open>Three unhealthy probes in a row under the defaults of the command line.\<close>

lemma monitor_unlimited_example:
  "monitor [quiet down, quiet down, quiet down] (started manual_config) =
     (Running,
      \<lparr>process = Some 3, retryCount = 3, config = manual_config, aborted = False,
       trace = [Spawn 0, Probe, Verdict False, Kill 0, Spawn 1,
                Probe, Verdict False, Kill 1, Spawn 2,
                Probe, Verdict False, Kill 2, Spawn 3],
       spawned = 4\<rparr>)"
  by (simp add: iteration_def checkHealth_def started_def new_ProcessManager_def
        manual_config_def down_def try_catch_def and_then_def quiet_def probed_def probing_def
        restart_def startProcess_def kill_if_running_def kill_def retries_exhausted_def)

section \<open>Cancellation\<close>

text \<open>
  A loop entered with the abort signal set returns at once. A \<open>stop()\<close> during the
  interval wait makes the loop return without a probe and without a restart. In every
  run, no probe is begun after the first \<open>stop()\<close>, and at most one spawn is attempted
  after it.
\<close>

lemma monitor_after_stop:
  "\<not> aborted s \<Longrightarrow> StopCalled \<notin> set (trace s) \<Longrightarrow>
   Probe \<notin> set (after_stop (trace (snd (monitor cs s)))) \<and>
   restarts (after_stop (trace (snd (monitor cs s)))) \<le> 1"
  using monitor_stopped_well [of s cs]
  by (simp add: stopped_well_def after_stop_none split: if_splits)

lemma monitor_aborted: "aborted s \<Longrightarrow> monitor cs s = (Returned, s)"
  by (cases cs) simp_all

lemma monitor_stop_in_wait:
  "\<not> aborted s \<Longrightarrow> stopInWait c \<Longrightarrow> monitor (c # cs) s = (Returned, stop s)"
  by (simp add: iteration_def)

text \<open>
  C2. Once \<open>stop()\<close> has set the abort signal the loop is to return without attempting
  another restart. The run below is the first example of the manual: \<open>stop()\<close> is called
  while the request of the probe is pending and kills child 0, the request then fails, and
  the loop goes on to restart: it spawns child 1 after the signal is set and returns at
  its next check of the signal, leaving child 1 running.
\<close>

theorem monitor_restart_after_stop:
  "monitor [(quiet down)\<lparr>stopInProbe := True\<rparr>] (started manual_config) =
     (Returned,
      \<lparr>process = Some 1, retryCount = 1, config = manual_config, aborted = True,
       trace = [Spawn 0, Probe, StopCalled, Kill 0, Verdict False, Kill 0, Spawn 1],
       spawned = 2\<rparr>) \<and>
   after_stop (trace (snd (monitor [(quiet down)\<lparr>stopInProbe := True\<rparr>] (started manual_config))))
     = [Kill 0, Verdict False, Kill 0, Spawn 1]"
  by (simp add: iteration_def checkHealth_def started_def new_ProcessManager_def
        manual_config_def down_def try_catch_def and_then_def quiet_def probed_def probing_def
        restart_def startProcess_def kill_if_running_def kill_def retries_exhausted_def
        stop_def after_stop_def)

section \<open>The command line\<close>

text \<open>
  C10. When the value of \<open>--max-retries\<close> converts to 0 or to NaN, the configuration
  gets \<open>maxRetries = -1\<close>; and whatever the value, \<open>maxRetries\<close> is never 0.
\<close>

theorem main_maxRetries_zero:
  "(Number arg = Finite 0 \<or> Number arg = NaN \<longrightarrow>
      main_maxRetries Number arg = Finite (- 1)) \<and>
   main_maxRetries Number arg \<noteq> Finite 0"
  by (cases "Number arg") (auto simp: main_maxRetries_def js_or_def)

theorem main_maxRetries_zero_witness:
  "main_maxRetries (\<lambda>a. if a = ''0'' then Finite 0 else NaN) ''0'' = Finite (- 1) \<and>
   main_maxRetries (\<lambda>a. if a = ''0'' then Finite 0 else NaN) ''many'' = Finite (- 1)"
  using main_maxRetries_zero [of "\<lambda>a. if a = ''0'' then Finite 0 else NaN" "''0''"]
        main_maxRetries_zero [of "\<lambda>a. if a = ''0'' then Finite 0 else NaN" "''many''"]
  by simp

end
